theory Spec2Isabelle
  imports Main "HOL-Library.Word"
begin

section \<open>The expiring key/value cache of pkg/cache/cache.go\<close>

text \<open>
  The cache maps string keys to items; an item is a value together with an expiration,
  the Unix time in nanoseconds (a Go \<^verbatim>\<open>int64\<close>) after which the item is stale. An
  expiration that is not positive means that the item never expires: \<^verbatim>\<open>Set\<close> leaves
  the zero value of \<^verbatim>\<open>var expiration int64\<close> in place when the duration is not
  positive, and \<^verbatim>\<open>Get\<close> and \<^verbatim>\<open>deleteExpiredItems\<close> look at the clock only when
  \<^verbatim>\<open>item.expiration > 0\<close>.

  Modelling decisions.
  \<^item> \<^verbatim>\<open>int64\<close> and \<^verbatim>\<open>time.Duration\<close> are 64-bit words; the comparisons of the source
    are the signed ones (\<open><s\<close>), and \<open>+\<close> wraps around as Go's does.
  \<^item> The clock is an input. Every operation takes the reading \<open>now\<close> that
    \<^verbatim>\<open>time.Now().UnixNano()\<close> gives when the operation runs. The expression
    \<^verbatim>\<open>time.Now().Add(duration).UnixNano()\<close> is \<open>now + duration\<close> on 64-bit words:
    \<^verbatim>\<open>Add\<close> moves the instant by \<^verbatim>\<open>duration\<close> nanoseconds and \<^verbatim>\<open>UnixNano\<close> computes
    seconds times \<open>10^9\<close> plus nanoseconds in \<^verbatim>\<open>int64\<close>.
  \<^item> A value of type \<^verbatim>\<open>interface{}\<close> is either \<^verbatim>\<open>nil\<close> or a boxed value; \<^verbatim>\<open>Get\<close>
    answers \<^verbatim>\<open>nil\<close> for a key that is missing or stale.
  \<^item> The methods mutate the cache behind a pointer; the model passes the cache in and
    returns the cache after the call. \<^verbatim>\<open>Get\<close> returns its result and the cache.
  \<^item> A cache is one that \<^verbatim>\<open>NewCache\<close> made and the methods changed, so its map is
    allocated. The zero \<^verbatim>\<open>Cache\<close>, whose map is \<^verbatim>\<open>nil\<close> and on which \<^verbatim>\<open>Set\<close> panics,
    is not a value of the model.
  \<^item> The mutex, the ticker and the channel \<^verbatim>\<open>stopCleanup\<close> belong to the scheduling of
    the operations and are outside the model: each operation holds the lock from its
    first statement to its return, so it is one atomic step on the cache.
\<close>

type_synonym int64 = "64 word"

datatype 'a iface = nil | Val 'a

text \<open>
  The field \<^verbatim>\<open>value\<close> of \<^verbatim>\<open>Item\<close> is called \<open>item_value\<close> here.
\<close>

record 'a Item =
  item_value :: "'a iface"
  expiration :: int64

record 'a Cache =
  items :: "string \<rightharpoonup> 'a Item"
  defaultExpiration :: int64
  cleanupInterval :: int64

text \<open>\<^verbatim>\<open>NewCache\<close>: an empty map and the two durations.\<close>

definition NewCache :: "int64 \<Rightarrow> int64 \<Rightarrow> 'a Cache" where
  "NewCache defaultExp cleanupInt =
     \<lparr>items = Map.empty, defaultExpiration = defaultExp, cleanupInterval = cleanupInt\<rparr>"

text \<open>
  \<^verbatim>\<open>Set\<close>: a duration of zero becomes the default; a positive duration gives the
  expiration \<open>now + duration\<close>, any other leaves it zero.
\<close>

definition Set :: "int64 \<Rightarrow> string \<Rightarrow> 'a iface \<Rightarrow> int64 \<Rightarrow> 'a Cache \<Rightarrow> 'a Cache" where
  "Set now key v duration c =
     (let duration' = (if duration = 0 then defaultExpiration c else duration);
          expiration' = (if 0 <s duration' then now + duration' else 0)
      in c\<lparr>items := (items c)(key \<mapsto> \<lparr>item_value = v, expiration = expiration'\<rparr>)\<rparr>)"

text \<open>\<^verbatim>\<open>Get\<close>: the result and the cache, which no branch writes to.\<close>

definition Get :: "int64 \<Rightarrow> string \<Rightarrow> 'a Cache \<Rightarrow> 'a iface \<times> 'a Cache" where
  "Get now key c =
     (case items c key of
        None \<Rightarrow> (nil, c)
      | Some item \<Rightarrow>
          if 0 <s expiration item then
            (if expiration item <s now then (nil, c) else (item_value item, c))
          else (item_value item, c))"

text \<open>\<^verbatim>\<open>Delete\<close>: Go's \<^verbatim>\<open>delete\<close> on a map does nothing for a missing key.\<close>

definition Delete :: "string \<Rightarrow> 'a Cache \<Rightarrow> 'a Cache" where
  "Delete key c = c\<lparr>items := (items c)(key := None)\<rparr>"

text \<open>
  \<^verbatim>\<open>Extend\<close>: returns at once for a missing key; otherwise resolves the duration as
  \<^verbatim>\<open>Set\<close> does, replaces the expiration of its copy of the item when the duration is
  positive, and stores the copy back.
\<close>

definition Extend :: "int64 \<Rightarrow> string \<Rightarrow> int64 \<Rightarrow> 'a Cache \<Rightarrow> 'a Cache" where
  "Extend now key duration c =
     (case items c key of
        None \<Rightarrow> c
      | Some item \<Rightarrow>
          (let duration' = (if duration = 0 then defaultExpiration c else duration);
               item' = (if 0 <s duration' then item\<lparr>expiration := now + duration'\<rparr> else item)
           in c\<lparr>items := (items c)(key \<mapsto> item')\<rparr>))"

text \<open>
  \<^verbatim>\<open>deleteExpiredItems\<close>: the \<^verbatim>\<open>range\<close> loop visits the entries of the map in an order
  Go does not fix, and reads the clock anew at each entry whose expiration is positive.
  The loop takes its schedule as a list: the keys in the order of the visit, each with
  the clock reading of its iteration. A pass of the source visits every key of the map
  once (it deletes only the entry it is at), so its schedule has the keys of the map,
  each once. A key of the schedule that the map no longer has is not visited.
\<close>

fun deleteExpiredItems_range ::
  "(string \<times> int64) list \<Rightarrow> (string \<rightharpoonup> 'a Item) \<Rightarrow> (string \<rightharpoonup> 'a Item)" where
  "deleteExpiredItems_range [] m = m"
| "deleteExpiredItems_range ((key, now) # rest) m =
     (case m key of
        None \<Rightarrow> deleteExpiredItems_range rest m
      | Some item \<Rightarrow>
          if 0 <s expiration item \<and> expiration item <s now
          then deleteExpiredItems_range rest (m(key := None))
          else deleteExpiredItems_range rest m)"

definition deleteExpiredItems :: "(string \<times> int64) list \<Rightarrow> 'a Cache \<Rightarrow> 'a Cache" where
  "deleteExpiredItems sched c = c\<lparr>items := deleteExpiredItems_range sched (items c)\<rparr>"

section \<open>Facts about the operations\<close>

text \<open>The result of \<^verbatim>\<open>Get\<close>, with the two nested tests of the source as one.\<close>

lemma Get_result:
  "fst (Get now key c) =
     (case items c key of
        None \<Rightarrow> nil
      | Some item \<Rightarrow>
          if 0 <s expiration item \<and> expiration item <s now then nil else item_value item)"
  by (simp add: Get_def split: option.split)

lemma items_Set:
  "items (Set now key v duration c) =
     (items c)(key \<mapsto> \<lparr>item_value = v,
        expiration =
          (if 0 <s (if duration = 0 then defaultExpiration c else duration)
           then now + (if duration = 0 then defaultExpiration c else duration) else 0)\<rparr>)"
  by (simp add: Set_def Let_def)

lemma defaultExpiration_Set:
  "defaultExpiration (Set now key v duration c) = defaultExpiration c"
  by (simp add: Set_def Let_def)

text \<open>
  When no addition overflows, the expiration that \<^verbatim>\<open>Set\<close> and \<^verbatim>\<open>Extend\<close> store is
  the sum of the clock reading and the duration as integers.
\<close>

lemma sint_add_no_overflow:
  fixes a b t :: int64
  assumes "0 \<le>s a" "0 <s b" "sint a + sint b < sint t"
  shows "sint (a + b) = sint a + sint b"
proof -
  have "sint t < 2 ^ 63" using sint_lt [of t] by simp
  moreover have "0 \<le> sint a" "0 < sint b" using assms by (simp_all add: word_sle_eq word_sless_alt)
  ultimately have "- (2 ^ 63) \<le> sint a + sint b" "sint a + sint b < 2 ^ 63" using assms(3) by linarith+
  then show ?thesis by (simp add: sint_word_ariths signed_take_bit_int_eq_self)
qed

text \<open>
  The loop of \<^verbatim>\<open>deleteExpiredItems\<close> only deletes: whatever the schedule, an entry is
  gone or as it was. An entry whose expiration is not positive stays. When every
  iteration reads the same clock value, the entries deleted are those the schedule
  visits whose expiration is positive and less than that value.
\<close>

lemma range_lookup:
  "deleteExpiredItems_range sched m k = None \<or> deleteExpiredItems_range sched m k = m k"
proof (induction sched m rule: deleteExpiredItems_range.induct)
  case (1 m)
  then show ?case by simp
next
  case (2 key now rest m)
  show ?case
  proof (cases "m key")
    case None
    with 2 show ?thesis by simp
  next
    case (Some item)
    show ?thesis
    proof (cases "0 <s expiration item \<and> expiration item <s now")
      case True
      with 2(2) [OF Some] Some
      have "deleteExpiredItems_range rest (m(key := None)) k = None \<or>
            deleteExpiredItems_range rest (m(key := None)) k = (m(key := None)) k"
        by blast
      moreover have "(m(key := None)) k = None \<or> (m(key := None)) k = m k"
        by simp
      ultimately show ?thesis using Some True by auto
    next
      case False
      with 2(3) [OF Some] Some show ?thesis by auto
    qed
  qed
qed

lemma range_keeps:
  "m k = Some item \<Longrightarrow> \<not> 0 <s expiration item \<Longrightarrow>
   deleteExpiredItems_range sched m k = Some item"
proof (induction sched m rule: deleteExpiredItems_range.induct)
  case (1 m)
  then show ?case by simp
next
  case (2 key now rest m)
  show ?case
  proof (cases "m key")
    case None
    with 2 show ?thesis by simp
  next
    case (Some item')
    show ?thesis
    proof (cases "0 <s expiration item' \<and> expiration item' <s now")
      case True
      have "key \<noteq> k" using True Some 2(4,5) by auto
      then have "(m(key := None)) k = Some item" using 2(4) by simp
      then have "deleteExpiredItems_range rest (m(key := None)) k = Some item"
        using 2(5) by (rule 2(2) [OF Some True])
      then show ?thesis using Some True by simp
    next
      case False
      have "deleteExpiredItems_range rest m k = Some item"
        using 2(4,5) by (rule 2(3) [OF Some False])
      then show ?thesis using Some False by auto
    qed
  qed
qed

lemma range_same_clock:
  "deleteExpiredItems_range (map (\<lambda>k. (k, now)) ks) m k =
     (case m k of
        None \<Rightarrow> None
      | Some item \<Rightarrow>
          if k \<in> set ks \<and> 0 <s expiration item \<and> expiration item <s now then None
          else Some item)"
proof (induction ks arbitrary: m)
  case Nil
  then show ?case by (simp split: option.split)
next
  case (Cons key ks)
  show ?case
  proof (cases "m key")
    case None
    then have "deleteExpiredItems_range (map (\<lambda>k. (k, now)) (key # ks)) m k =
               deleteExpiredItems_range (map (\<lambda>k. (k, now)) ks) m k"
      by simp
    also note Cons.IH [of m]
    finally show ?thesis using None by (auto split: option.split)
  next
    case (Some item')
    show ?thesis
    proof (cases "0 <s expiration item' \<and> expiration item' <s now")
      case True
      then have "deleteExpiredItems_range (map (\<lambda>k. (k, now)) (key # ks)) m k =
                 deleteExpiredItems_range (map (\<lambda>k. (k, now)) ks) (m(key := None)) k"
        using Some by simp
      also note Cons.IH [of "m(key := None)"]
      finally show ?thesis using Some True by (auto split: option.split)
    next
      case False
      then have "deleteExpiredItems_range (map (\<lambda>k. (k, now)) (key # ks)) m k =
                 deleteExpiredItems_range (map (\<lambda>k. (k, now)) ks) m k"
        using Some by auto
      also note Cons.IH [of m]
      finally show ?thesis using Some False by (auto split: option.split)
    qed
  qed
qed

text \<open>
  In general every entry is judged at the clock reading of its own iteration: a pass
  whose schedule names no key twice deletes the entries it visits whose expiration is
  positive and less than the reading taken at that entry.
\<close>

lemma range_own_clock:
  "distinct (map fst sched) \<Longrightarrow>
   deleteExpiredItems_range sched m k =
     (case m k of
        None \<Rightarrow> None
      | Some item \<Rightarrow>
          if 0 <s expiration item \<and> (\<exists>t. (k, t) \<in> set sched \<and> expiration item <s t) then None
          else Some item)"
proof (induction sched m rule: deleteExpiredItems_range.induct)
  case (1 m)
  then show ?case by (simp split: option.split)
next
  case (2 key now rest m)
  have d: "distinct (map fst rest)" and fresh: "\<And>t. (key, t) \<notin> set rest"
    using 2(4) by (auto simp: image_iff)
  show ?case
  proof (cases "m key")
    case None
    with 2(1) [OF None d] show ?thesis by (auto split: option.split)
  next
    case (Some item')
    show ?thesis
    proof (cases "0 <s expiration item' \<and> expiration item' <s now")
      case True
      have "deleteExpiredItems_range ((key, now) # rest) m k =
            deleteExpiredItems_range rest (m(key := None)) k"
        using Some True by simp
      also note 2(2) [OF Some True d]
      finally show ?thesis using Some True by (auto split: option.split)
    next
      case False
      have "deleteExpiredItems_range ((key, now) # rest) m k =
            deleteExpiredItems_range rest m k"
        using Some False by auto
      also note 2(3) [OF Some False d]
      finally show ?thesis using Some False fresh by (auto split: option.split)
    qed
  qed
qed

text \<open>Any number of passes of \<^verbatim>\<open>deleteExpiredItems\<close>, one after the other.\<close>

lemma sweeps_lookup:
  "items (fold deleteExpiredItems scheds c) k = None \<or>
   items (fold deleteExpiredItems scheds c) k = items c k"
proof (induction scheds arbitrary: c)
  case Nil
  then show ?case by simp
next
  case (Cons sched scheds)
  have "items (deleteExpiredItems sched c) k = None \<or>
        items (deleteExpiredItems sched c) k = items c k"
    using range_lookup [of sched "items c" k] by (simp add: deleteExpiredItems_def)
  with Cons.IH [of "deleteExpiredItems sched c"] show ?case by auto
qed

lemma sweeps_keep:
  "items c k = Some item \<Longrightarrow> \<not> 0 <s expiration item \<Longrightarrow>
   items (fold deleteExpiredItems scheds c) k = Some item"
proof (induction scheds arbitrary: c)
  case Nil
  then show ?case by simp
next
  case (Cons sched scheds)
  have "items (deleteExpiredItems sched c) k = Some item"
    using range_keeps [of "items c" k item sched] Cons.prems by (simp add: deleteExpiredItems_def)
  then show ?case using Cons.IH [of "deleteExpiredItems sched c"] Cons.prems(2) by simp
qed

section \<open>The claims\<close>

text \<open>
  Claim C1, as the code has it. For a key whose item has a positive expiration,
  \<^verbatim>\<open>Get\<close> at a clock reading greater than the expiration answers \<^verbatim>\<open>nil\<close>; at a
  reading equal to the expiration, or less, it answers the stored value. The source
  tests \<^verbatim>\<open>time.Now().UnixNano() > item.expiration\<close>, so the item is still served at the
  instant of its expiration.
\<close>

theorem Get_past_expiration:
  assumes "items c key = Some item" and "0 <s expiration item"
  shows "(expiration item <s now \<longrightarrow> fst (Get now key c) = nil) \<and>
         (now \<le>s expiration item \<longrightarrow> fst (Get now key c) = item_value item)"
  using assms by (auto simp: Get_result)

theorem Get_past_expiration_witness:
  "fst (Get 101 ''example.org'' (Set 40 ''example.org'' (Val (1::nat)) 60 (NewCache 0 30))) = nil \<and>
   fst (Get 100 ''example.org'' (Set 40 ''example.org'' (Val (1::nat)) 60 (NewCache 0 30))) = Val 1"
  using Get_past_expiration [of "Set 40 ''example.org'' (Val (1::nat)) 60 (NewCache 0 30)"
      "''example.org''" "\<lparr>item_value = Val 1, expiration = 100\<rparr>" 101]
    Get_past_expiration [of "Set 40 ''example.org'' (Val (1::nat)) 60 (NewCache 0 30)"
      "''example.org''" "\<lparr>item_value = Val 1, expiration = 100\<rparr>" 100]
  by (simp add: items_Set NewCache_def word_sless_alt word_sle_eq)

text \<open>
  Claim C1 as stated fails: the item stored at reading 40 for 60 nanoseconds expires
  at 100, and \<^verbatim>\<open>Get\<close> at reading 100 answers the value, not \<^verbatim>\<open>nil\<close>.
\<close>

theorem Get_at_expiration_counterexample:
  "items (Set 40 ''example.org'' (Val (1::nat)) 60 (NewCache 0 30)) ''example.org'' =
     Some \<lparr>item_value = Val 1, expiration = 100\<rparr> \<and>
   0 <s (100::int64) \<and>
   fst (Get 100 ''example.org'' (Set 40 ''example.org'' (Val (1::nat)) 60 (NewCache 0 30))) = Val 1 \<and>
   Val (1::nat) \<noteq> nil"
  by (simp add: Get_result items_Set NewCache_def word_sless_alt)

text \<open>
  Claim C2. Let \<^verbatim>\<open>Set(key, v, ttl)\<close> run at a clock reading \<open>now\<close> that is not before
  the Unix epoch, with a resolved duration \<open>d\<close> (the default when \<open>ttl\<close> is zero) that is
  positive. Then \<^verbatim>\<open>Get(key)\<close> at any reading \<open>t\<close> after \<open>now + d\<close> answers \<^verbatim>\<open>nil\<close>,
  whether no pass of \<^verbatim>\<open>deleteExpiredItems\<close> has run in between (\<open>scheds = []\<close>), one
  pass, or several, with any schedules. The sum \<open>now + d\<close> is the sum of integers: a
  reading after it exists only when the sum is itself an \<^verbatim>\<open>int64\<close>.
\<close>

theorem Set_then_Get_after_ttl:
  assumes "0 \<le>s now"
    and "d = (if ttl = 0 then defaultExpiration c else ttl)"
    and "0 <s d"
    and "sint now + sint d < sint t"
  shows "fst (Get t key (fold deleteExpiredItems scheds (Set now key v ttl c))) = nil"
proof -
  let ?c' = "Set now key v ttl c"
  have sum: "sint (now + d) = sint now + sint d"
    using assms(1,3,4) by (rule sint_add_no_overflow)
  have "0 \<le> sint now" "0 < sint d"
    using assms(1,3) by (simp_all add: word_sle_eq word_sless_alt)
  with sum assms(4) have exp: "0 <s now + d" "now + d <s t"
    by (simp_all add: word_sless_alt)
  have stored: "items ?c' key = Some \<lparr>item_value = v, expiration = now + d\<rparr>"
    using assms(2,3) by (simp add: items_Set)
  from sweeps_lookup [of scheds ?c' key]
  show ?thesis
  proof
    assume "items (fold deleteExpiredItems scheds ?c') key = None"
    then show ?thesis by (simp add: Get_result)
  next
    assume "items (fold deleteExpiredItems scheds ?c') key = items ?c' key"
    with stored exp show ?thesis by (simp add: Get_result)
  qed
qed

theorem Set_then_Get_after_ttl_witness:
  "fst (Get 1051 ''a'' (fold deleteExpiredItems []
      (Set 1000 ''a'' (Val (1::nat)) 0 (NewCache 50 30)))) = nil \<and>
   fst (Get 1051 ''a'' (fold deleteExpiredItems [[(''a'', 1030)], [(''a'', 1050)]]
      (Set 1000 ''a'' (Val (1::nat)) 0 (NewCache 50 30)))) = nil"
  using Set_then_Get_after_ttl [of 1000 50 0 "NewCache 50 30" 1051 "''a''" "[]" "Val (1::nat)"]
    Set_then_Get_after_ttl [of 1000 50 0 "NewCache 50 30" 1051 "''a''"
      "[[(''a'', 1030)], [(''a'', 1050)]]" "Val (1::nat)"]
  by (simp add: NewCache_def word_sle_eq word_sless_alt)

text \<open>
  Claim C3. After \<^verbatim>\<open>Set(key, v, ttl)\<close> with a positive \<open>ttl\<close> at reading \<open>now\<close> the
  stored expiration is \<open>now + ttl\<close>, and \<^verbatim>\<open>Get(key)\<close> right after it, at any reading
  before the stored expiration, answers \<open>v\<close>.
\<close>

theorem Set_then_Get_before_expiration:
  assumes "0 <s ttl"
  shows "items (Set now key v ttl c) key = Some \<lparr>item_value = v, expiration = now + ttl\<rparr> \<and>
         (t <s now + ttl \<longrightarrow> fst (Get t key (Set now key v ttl c)) = v)"
proof -
  have "ttl \<noteq> 0" using assms by auto
  then have stored: "items (Set now key v ttl c) key = Some \<lparr>item_value = v, expiration = now + ttl\<rparr>"
    using assms by (simp add: items_Set)
  moreover have "t <s now + ttl \<Longrightarrow> \<not> now + ttl <s t"
    by (simp add: word_sless_alt)
  ultimately show ?thesis by (auto simp: Get_result)
qed

theorem Set_then_Get_before_expiration_witness:
  "items (Set 1000 ''a'' (Val (1::nat)) 50 (NewCache 0 30)) ''a'' =
     Some \<lparr>item_value = Val 1, expiration = 1050\<rparr> \<and>
   fst (Get 1049 ''a'' (Set 1000 ''a'' (Val (1::nat)) 50 (NewCache 0 30))) = Val 1"
  using Set_then_Get_before_expiration [of 50 1000 "''a''" "Val (1::nat)" "NewCache 0 30" 1049]
  by (simp add: word_sless_alt)

text \<open>
  Claim C4. \<^verbatim>\<open>Set(key, v, ttl)\<close> resolves the duration \<open>d\<close> as \<open>ttl\<close>, or as the
  default when \<open>ttl\<close> is zero. When \<open>d\<close> is positive the stored expiration is
  \<open>now + d\<close> (the \<^verbatim>\<open>int64\<close> sum the source computes). When \<open>d\<close> is zero, that is when
  \<open>ttl\<close> and the default are both zero, the stored expiration is zero, the value that
  never expires: \<^verbatim>\<open>Get(key)\<close> answers \<open>v\<close> at every reading \<open>t\<close>, also after any
  passes of \<^verbatim>\<open>deleteExpiredItems\<close>.
\<close>

theorem Set_resolves_ttl:
  assumes "d = (if ttl = 0 then defaultExpiration c else ttl)"
  shows "(0 <s d \<longrightarrow>
            items (Set now key v ttl c) key = Some \<lparr>item_value = v, expiration = now + d\<rparr>) \<and>
         (d = 0 \<longrightarrow>
            items (Set now key v ttl c) key = Some \<lparr>item_value = v, expiration = 0\<rparr> \<and>
            fst (Get t key (fold deleteExpiredItems scheds (Set now key v ttl c))) = v)"
proof (intro conjI impI)
  assume "0 <s d"
  then show "items (Set now key v ttl c) key = Some \<lparr>item_value = v, expiration = now + d\<rparr>"
    using assms by (simp add: items_Set)
next
  assume "d = 0"
  then show stored: "items (Set now key v ttl c) key = Some \<lparr>item_value = v, expiration = 0\<rparr>"
    using assms by (simp add: items_Set)
  have "items (fold deleteExpiredItems scheds (Set now key v ttl c)) key =
        Some \<lparr>item_value = v, expiration = 0\<rparr>"
    using stored by (rule sweeps_keep) simp
  then show "fst (Get t key (fold deleteExpiredItems scheds (Set now key v ttl c))) = v"
    by (simp add: Get_result)
qed

theorem Set_resolves_ttl_witness:
  "items (Set 1000 ''a'' (Val (1::nat)) 0 (NewCache 50 30)) ''a'' =
     Some \<lparr>item_value = Val 1, expiration = 1050\<rparr> \<and>
   items (Set 1000 ''a'' (Val (1::nat)) 0 (NewCache 0 30)) ''a'' =
     Some \<lparr>item_value = Val 1, expiration = 0\<rparr> \<and>
   fst (Get 9000000000000000000 ''a'' (fold deleteExpiredItems [[(''a'', 2000)]]
      (Set 1000 ''a'' (Val (1::nat)) 0 (NewCache 0 30)))) = Val 1"
  using Set_resolves_ttl [of 50 0 "NewCache 50 30" 1000 "''a''" "Val (1::nat)"]
    Set_resolves_ttl [of 0 0 "NewCache 0 30" 1000 "''a''" "Val (1::nat)"
      9000000000000000000 "[[(''a'', 2000)]]"]
  by (simp add: NewCache_def word_sless_alt)

text \<open>
  Claim C5. For a key that has an item, \<^verbatim>\<open>Extend(key, ttl)\<close> resolves the duration \<open>d\<close>
  as \<^verbatim>\<open>Set\<close> does. When \<open>d\<close> is positive the cache afterwards differs only at the key,
  whose item has the value it had and the expiration \<open>now + d\<close>. When \<open>d\<close> is zero the
  cache is as it was: the expiration is not touched and is not set to zero.
\<close>

theorem Extend_present:
  assumes "items c key = Some item"
    and "d = (if ttl = 0 then defaultExpiration c else ttl)"
  shows "(0 <s d \<longrightarrow>
            Extend now key ttl c =
              c\<lparr>items := (items c)(key \<mapsto> \<lparr>item_value = item_value item, expiration = now + d\<rparr>)\<rparr>) \<and>
         (d = 0 \<longrightarrow> Extend now key ttl c = c)"
proof (intro conjI impI)
  assume "0 <s d"
  then show "Extend now key ttl c =
      c\<lparr>items := (items c)(key \<mapsto> \<lparr>item_value = item_value item, expiration = now + d\<rparr>)\<rparr>"
    using assms by (cases item) (simp add: Extend_def Let_def)
next
  assume "d = 0"
  moreover have "(items c)(key \<mapsto> item) = items c"
    using assms(1) by (rule map_upd_triv)
  ultimately show "Extend now key ttl c = c"
    using assms by (simp add: Extend_def Let_def)
qed

theorem Extend_present_witness:
  "items (Extend 1010 ''b'' 7200 (Set 1000 ''b'' (Val (1::nat)) 3600 (NewCache 0 30))) ''b'' =
     Some \<lparr>item_value = Val 1, expiration = 8210\<rparr> \<and>
   Extend 1010 ''b'' 0 (Set 1000 ''b'' (Val (1::nat)) 3600 (NewCache 0 30)) =
     Set 1000 ''b'' (Val (1::nat)) 3600 (NewCache 0 30)"
  using Extend_present [of "Set 1000 ''b'' (Val (1::nat)) 3600 (NewCache 0 30)" "''b''"
      "\<lparr>item_value = Val (1::nat), expiration = 4600\<rparr>" 7200 7200 1010]
    Extend_present [of "Set 1000 ''b'' (Val (1::nat)) 3600 (NewCache 0 30)" "''b''"
      "\<lparr>item_value = Val (1::nat), expiration = 4600\<rparr>" 0 0 1010]
  by (simp add: items_Set defaultExpiration_Set NewCache_def word_sless_alt)

text \<open>
  Claim C6, as the code has it. Take one pass of \<^verbatim>\<open>deleteExpiredItems\<close> that visits the
  keys of the map and reads the same clock value \<open>now\<close> at each. Afterwards the map
  has lost the entries whose expiration is positive and less than \<open>now\<close>, and has every
  other entry as it was: those with an expiration that is not positive, and those with
  an expiration equal to \<open>now\<close> or greater. \<^verbatim>\<open>Get\<close> plays no part in it. The source
  tests \<^verbatim>\<open>time.Now().UnixNano() > item.expiration\<close>, so an entry that expires at the
  instant of the pass stays.
\<close>

theorem deleteExpiredItems_pass:
  assumes "set ks = dom (items c)"
  shows "items (deleteExpiredItems (map (\<lambda>k. (k, now)) ks) c) key =
           (case items c key of
              None \<Rightarrow> None
            | Some item \<Rightarrow>
                if 0 <s expiration item \<and> expiration item <s now then None else Some item)"
proof (cases "items c key")
  case None
  then show ?thesis by (simp add: deleteExpiredItems_def range_same_clock)
next
  case (Some item)
  then have "key \<in> set ks" using assms by auto
  with Some show ?thesis by (simp add: deleteExpiredItems_def range_same_clock)
qed

theorem deleteExpiredItems_pass_witness:
  "items (deleteExpiredItems [(''c'', 150), (''b'', 150), (''a'', 150)]
      (Set 100 ''c'' (Val 3) 100 (Set 40 ''b'' (Val 2) 0
        (Set 40 ''a'' (Val (1::nat)) 60 (NewCache 0 30))))) ''a'' = None \<and>
   items (deleteExpiredItems [(''c'', 150), (''b'', 150), (''a'', 150)]
      (Set 100 ''c'' (Val 3) 100 (Set 40 ''b'' (Val 2) 0
        (Set 40 ''a'' (Val (1::nat)) 60 (NewCache 0 30))))) ''b'' =
     Some \<lparr>item_value = Val 2, expiration = 0\<rparr> \<and>
   items (deleteExpiredItems [(''c'', 150), (''b'', 150), (''a'', 150)]
      (Set 100 ''c'' (Val 3) 100 (Set 40 ''b'' (Val 2) 0
        (Set 40 ''a'' (Val (1::nat)) 60 (NewCache 0 30))))) ''c'' =
     Some \<lparr>item_value = Val 3, expiration = 200\<rparr>"
  using deleteExpiredItems_pass [of "[''c'', ''b'', ''a'']"
      "Set 100 ''c'' (Val 3) 100 (Set 40 ''b'' (Val 2) 0
        (Set 40 ''a'' (Val (1::nat)) 60 (NewCache 0 30)))" 150 "''a''"]
    deleteExpiredItems_pass [of "[''c'', ''b'', ''a'']"
      "Set 100 ''c'' (Val 3) 100 (Set 40 ''b'' (Val 2) 0
        (Set 40 ''a'' (Val (1::nat)) 60 (NewCache 0 30)))" 150 "''b''"]
    deleteExpiredItems_pass [of "[''c'', ''b'', ''a'']"
      "Set 100 ''c'' (Val 3) 100 (Set 40 ''b'' (Val 2) 0
        (Set 40 ''a'' (Val (1::nat)) 60 (NewCache 0 30)))" 150 "''c''"]
  by (simp add: items_Set defaultExpiration_Set NewCache_def word_sless_alt)

text \<open>
  Claim C6 as stated fails: the item stored at reading 40 for 60 nanoseconds expires
  at 100, and a pass at reading 100 that visits it leaves it in the map.
\<close>

theorem deleteExpiredItems_at_expiration_counterexample:
  "items (Set 40 ''a'' (Val (1::nat)) 60 (NewCache 0 30)) ''a'' =
     Some \<lparr>item_value = Val 1, expiration = 100\<rparr> \<and>
   set [''a''] = dom (items (Set 40 ''a'' (Val (1::nat)) 60 (NewCache 0 30))) \<and>
   0 <s (100::int64) \<and> (100::int64) \<le>s 100 \<and>
   items (deleteExpiredItems [(''a'', 100)] (Set 40 ''a'' (Val (1::nat)) 60 (NewCache 0 30))) ''a'' =
     Some \<lparr>item_value = Val 1, expiration = 100\<rparr>"
  by (simp add: deleteExpiredItems_def items_Set NewCache_def word_sless_alt word_sle_eq)

text \<open>
  Claim C7. After \<^verbatim>\<open>Delete(key)\<close> the map has no entry for the key and \<^verbatim>\<open>Get(key)\<close>
  answers \<^verbatim>\<open>nil\<close> at any reading; when the key had no entry, the cache after
  \<^verbatim>\<open>Delete\<close> is the cache before. \<^verbatim>\<open>Delete\<close> has no failing branch.
\<close>

theorem Delete_removes:
  "items (Delete key c) key = None \<and> fst (Get now key (Delete key c)) = nil \<and>
   (items c key = None \<longrightarrow> Delete key c = c)"
  by (simp add: Delete_def Get_result fun_upd_idem)

theorem Delete_removes_witness:
  "fst (Get 50 ''a'' (Delete ''a'' (Set 40 ''a'' (Val (1::nat)) 60 (NewCache 0 30)))) = nil \<and>
   Delete ''b'' (NewCache 0 30 :: nat Cache) = NewCache 0 30"
  using Delete_removes [of "''a''" "Set 40 ''a'' (Val (1::nat)) 60 (NewCache 0 30)" 50]
    Delete_removes [of "''b''" "NewCache 0 30 :: nat Cache"]
  by (simp add: NewCache_def)

text \<open>
  Claim C8. For a key with no entry and any duration, \<^verbatim>\<open>Extend\<close> returns the cache as
  it was, so no entry is made, and \<^verbatim>\<open>Get\<close> of the key still answers \<^verbatim>\<open>nil\<close>.
\<close>

theorem Extend_absent:
  assumes "items c key = None"
  shows "Extend now key ttl c = c \<and> fst (Get t key (Extend now key ttl c)) = nil"
  using assms by (simp add: Extend_def Get_result)

theorem Extend_absent_witness:
  "Extend 40 ''b'' 60 (Set 40 ''a'' (Val (1::nat)) 60 (NewCache 0 30)) =
     Set 40 ''a'' (Val (1::nat)) 60 (NewCache 0 30) \<and>
   fst (Get 50 ''b'' (Extend 40 ''b'' 60 (Set 40 ''a'' (Val (1::nat)) 60 (NewCache 0 30)))) = nil"
  using Extend_absent [of "Set 40 ''a'' (Val (1::nat)) 60 (NewCache 0 30)" "''b''" 40 60 50]
  by (simp add: items_Set NewCache_def Get_result)

text \<open>
  Claim C9. \<^verbatim>\<open>Get\<close> does not change the cache, whatever the key and the clock
  reading: the cache it returns is the cache it was given, and so is the map of items;
  an item past its expiration stays in the map.
\<close>

theorem Get_leaves_cache:
  "snd (Get now key c) = c \<and> items (snd (Get now key c)) = items c"
  by (simp add: Get_def split: option.split)

text \<open>
  Claim C10. \<^verbatim>\<open>Set(key, v, ttl)\<close> with a negative \<open>ttl\<close> stores the expiration zero
  whatever the default is: the default replaces only a \<open>ttl\<close> of zero, and a duration
  that is not positive leaves the expiration at its zero value. The item never expires:
  \<^verbatim>\<open>Get(key)\<close> answers \<open>v\<close> at every reading \<open>t\<close>, also after any passes of
  \<^verbatim>\<open>deleteExpiredItems\<close>.
\<close>

theorem Set_negative_ttl:
  assumes "ttl <s 0"
  shows "items (Set now key v ttl c) key = Some \<lparr>item_value = v, expiration = 0\<rparr> \<and>
         fst (Get t key (fold deleteExpiredItems scheds (Set now key v ttl c))) = v"
proof -
  have "ttl \<noteq> 0" "\<not> 0 <s ttl" using assms by (auto simp: word_sless_alt)
  then have stored: "items (Set now key v ttl c) key = Some \<lparr>item_value = v, expiration = 0\<rparr>"
    by (simp add: items_Set)
  have "items (fold deleteExpiredItems scheds (Set now key v ttl c)) key =
        Some \<lparr>item_value = v, expiration = 0\<rparr>"
    using stored by (rule sweeps_keep) simp
  with stored show ?thesis by (simp add: Get_result)
qed

theorem Set_negative_ttl_witness:
  "items (Set 1000 ''a'' (Val (1::nat)) (- 5) (NewCache 50 30)) ''a'' =
     Some \<lparr>item_value = Val 1, expiration = 0\<rparr> \<and>
   fst (Get 9000000000000000000 ''a'' (fold deleteExpiredItems [[(''a'', 2000)]]
      (Set 1000 ''a'' (Val (1::nat)) (- 5) (NewCache 50 30)))) = Val 1"
  using Set_negative_ttl [of "- 5" 1000 "''a''" "Val (1::nat)" "NewCache 50 30"
      9000000000000000000 "[[(''a'', 2000)]]"]
  by (simp add: word_sless_alt)

end
